theory Spec2Isabelle
  imports Complex_Main
begin

section \<open>Python values used by \<open>stability_sdk/utils.py\<close>\<close>

text \<open>
  A Python string is a \<open>string\<close>: the list of its characters, a character being a code
  point below 256. Python's unbounded integers are \<open>int\<close>. A Python float given as an
  argument is a \<open>pyfloat\<close>: a finite number, an infinity or NaN, and a comparison with
  NaN is false. An exception is a value of \<open>py_error\<close>; its message is kept as the
  list of the pieces an f-string puts together, so that a formatted float stays a number.
\<close>

datatype pyfloat = Finite real | PosInf | NegInf | NaN

fun float_lt :: "pyfloat \<Rightarrow> pyfloat \<Rightarrow> bool" where
  "float_lt (Finite a) (Finite b) = (a < b)"
| "float_lt (Finite a) PosInf = True"
| "float_lt NegInf (Finite b) = True"
| "float_lt NegInf PosInf = True"
| "float_lt a b = False"

definition is_nan :: "pyfloat \<Rightarrow> bool" where
  "is_nan a = (a = NaN)"

text \<open>\<open>a >= b\<close>: neither is NaN and \<open>a < b\<close> does not hold.\<close>

definition float_ge :: "pyfloat \<Rightarrow> pyfloat \<Rightarrow> bool" where
  "float_ge a b = (\<not> is_nan a \<and> \<not> is_nan b \<and> \<not> float_lt a b)"

datatype piece = S string | F pyfloat

datatype py_error =
    ValueError "piece list"
  | RuntimeError string
  | Exception string
  | AssertionError
  | KeyError

subsection \<open>\<open>str.lower\<close>, \<open>str.strip\<close>, \<open>str(int)\<close> and slicing\<close>

definition ascii_uppercase :: string where
  "ascii_uppercase = ''ABCDEFGHIJKLMNOPQRSTUVWXYZ''"

definition ascii_lowercase :: string where
  "ascii_lowercase = ''abcdefghijklmnopqrstuvwxyz''"

text \<open>
  Among the code points below 256, \<open>str.lower\<close> also changes the capital letters
  192 to 214 and 216 to 222, each to the code point 32 above it.
\<close>

definition latin1_uppercase :: string where
  "latin1_uppercase =
     [
      CHR 0xC0, CHR 0xC1, CHR 0xC2, CHR 0xC3, CHR 0xC4, CHR 0xC5, CHR 0xC6, CHR 0xC7,
      CHR 0xC8, CHR 0xC9, CHR 0xCA, CHR 0xCB, CHR 0xCC, CHR 0xCD, CHR 0xCE, CHR 0xCF,
      CHR 0xD0, CHR 0xD1, CHR 0xD2, CHR 0xD3, CHR 0xD4, CHR 0xD5, CHR 0xD6, CHR 0xD8,
      CHR 0xD9, CHR 0xDA, CHR 0xDB, CHR 0xDC, CHR 0xDD, CHR 0xDE]"

definition latin1_lowercase :: string where
  "latin1_lowercase =
     [
      CHR 0xE0, CHR 0xE1, CHR 0xE2, CHR 0xE3, CHR 0xE4, CHR 0xE5, CHR 0xE6, CHR 0xE7,
      CHR 0xE8, CHR 0xE9, CHR 0xEA, CHR 0xEB, CHR 0xEC, CHR 0xED, CHR 0xEE, CHR 0xEF,
      CHR 0xF0, CHR 0xF1, CHR 0xF2, CHR 0xF3, CHR 0xF4, CHR 0xF5, CHR 0xF6, CHR 0xF8,
      CHR 0xF9, CHR 0xFA, CHR 0xFB, CHR 0xFC, CHR 0xFD, CHR 0xFE]"

definition lower_char :: "char \<Rightarrow> char" where
  "lower_char c =
     (case map_of (zip (ascii_uppercase @ latin1_uppercase) (ascii_lowercase @ latin1_lowercase)) c of
        Some l \<Rightarrow> l
      | None \<Rightarrow> c)"

definition str_lower :: "string \<Rightarrow> string" where
  "str_lower s = map lower_char s"

text \<open>
  The characters for which \<open>str.isspace\<close> holds, which \<open>str.strip\<close> removes and which
  \<open>\s\<close> matches: the code points 9 to 13, 28 to 32, 133 and 160.
\<close>

definition whitespace :: string where
  "whitespace =
     [CHR 0x09, CHR 0x0A, CHR 0x0B, CHR 0x0C, CHR 0x0D,
      CHR 0x1C, CHR 0x1D, CHR 0x1E, CHR 0x1F, CHR 0x20,
      CHR 0x85, CHR 0xA0]"

definition is_space :: "char \<Rightarrow> bool" where
  "is_space c = (c \<in> set whitespace)"

definition str_strip :: "string \<Rightarrow> string" where
  "str_strip s = rev (dropWhile is_space (rev (dropWhile is_space s)))"

definition digits :: string where
  "digits = ''0123456789''"

fun digits_of_nat :: "nat \<Rightarrow> string" where
  "digits_of_nat n =
     (if n < 10 then [digits ! n]
      else digits_of_nat (n div 10) @ [digits ! (n mod 10)])"

declare digits_of_nat.simps [simp del]

definition str_of_int :: "int \<Rightarrow> string" where
  "str_of_int i = (if i < 0 then CHR ''-'' # digits_of_nat (nat (- i)) else digits_of_nat (nat i))"

text \<open>
  \<open>xs[:k]\<close>: the first \<open>k\<close> elements when \<open>k\<close> is not negative, and all but the last
  \<open>-k\<close> elements when it is.
\<close>

definition slice_to :: "'a list \<Rightarrow> int \<Rightarrow> 'a list" where
  "slice_to xs k =
     (if 0 \<le> k then take (nat k) xs else take (nat (int (length xs) + k)) xs)"

section \<open>Enum lookup tables\<close>

text \<open>
  The enums come from the generated protocol module \<open>generation_pb2\<close>, which is not
  part of the sources. Modelled from the spec: each protocol enum is a datatype whose
  constructors are the constants that \<open>utils.py\<close> names.
\<close>

datatype DiffusionSampler =
    SAMPLER_DDIM | SAMPLER_DDPM | SAMPLER_K_EULER | SAMPLER_K_EULER_ANCESTRAL
  | SAMPLER_K_HEUN | SAMPLER_K_DPM_2 | SAMPLER_K_DPM_2_ANCESTRAL | SAMPLER_K_LMS

datatype GuidancePreset =
    GUIDANCE_PRESET_NONE | GUIDANCE_PRESET_SIMPLE
  | GUIDANCE_PRESET_FAST_BLUE | GUIDANCE_PRESET_FAST_GREEN

datatype ColorMatchMode = COLOR_MATCH_HSV | COLOR_MATCH_LAB | COLOR_MATCH_RGB

datatype BorderMode = BORDER_REPLICATE | BORDER_REFLECT | BORDER_WRAP | BORDER_ZERO

definition SAMPLERS :: "(string \<times> DiffusionSampler) list" where
  "SAMPLERS =
     [(''ddim'', SAMPLER_DDIM),
      (''plms'', SAMPLER_DDPM),
      (''k_euler'', SAMPLER_K_EULER),
      (''k_euler_ancestral'', SAMPLER_K_EULER_ANCESTRAL),
      (''k_heun'', SAMPLER_K_HEUN),
      (''k_dpm_2'', SAMPLER_K_DPM_2),
      (''k_dpm_2_ancestral'', SAMPLER_K_DPM_2_ANCESTRAL),
      (''k_lms'', SAMPLER_K_LMS)]"

definition GUIDANCE_PRESETS :: "(string \<times> GuidancePreset) list" where
  "GUIDANCE_PRESETS =
     [(''none'', GUIDANCE_PRESET_NONE),
      (''simple'', GUIDANCE_PRESET_SIMPLE),
      (''fastblue'', GUIDANCE_PRESET_FAST_BLUE),
      (''fastgreen'', GUIDANCE_PRESET_FAST_GREEN)]"

definition COLOR_SPACES :: "(string \<times> ColorMatchMode) list" where
  "COLOR_SPACES =
     [(''hsv'', COLOR_MATCH_HSV),
      (''lab'', COLOR_MATCH_LAB),
      (''rgb'', COLOR_MATCH_RGB)]"

definition BORDER_MODES_2D :: "(string \<times> BorderMode) list" where
  "BORDER_MODES_2D =
     [(''replicate'', BORDER_REPLICATE),
      (''reflect'', BORDER_REFLECT),
      (''wrap'', BORDER_WRAP),
      (''zero'', BORDER_ZERO)]"

definition two_d_only_modes :: "string list" where
  "two_d_only_modes = [''wrap'']"

definition BORDER_MODES_3D :: "(string \<times> BorderMode) list" where
  "BORDER_MODES_3D = filter (\<lambda>(k, v). k \<notin> set two_d_only_modes) BORDER_MODES_2D"

text \<open>\<open>d.get(k)\<close> on a dict literal is \<open>map_of\<close> on its items.\<close>

definition border_mode_from_str_2d :: "string \<Rightarrow> py_error + BorderMode" where
  "border_mode_from_str_2d s =
     (case map_of BORDER_MODES_2D (str_strip (str_lower s)) of
        None \<Rightarrow> Inl (ValueError [S ''invalid 2d border mode '', S s])
      | Some repr \<Rightarrow> Inr repr)"

definition border_mode_from_str_3d :: "string \<Rightarrow> py_error + BorderMode" where
  "border_mode_from_str_3d s =
     (case map_of BORDER_MODES_3D (str_strip (str_lower s)) of
        None \<Rightarrow> Inl (ValueError [S ''invalid 3d border mode '', S s])
      | Some repr \<Rightarrow> Inr repr)"

definition color_match_from_string :: "string \<Rightarrow> py_error + ColorMatchMode" where
  "color_match_from_string s =
     (case map_of COLOR_SPACES (str_strip (str_lower s)) of
        None \<Rightarrow> Inl (ValueError [S ''invalid color space: '', S s])
      | Some repr \<Rightarrow> Inr repr)"

definition guidance_from_string :: "string \<Rightarrow> py_error + GuidancePreset" where
  "guidance_from_string s =
     (case map_of GUIDANCE_PRESETS (str_strip (str_lower s)) of
        None \<Rightarrow> Inl (ValueError [S ''invalid guidance preset: '', S s])
      | Some repr \<Rightarrow> Inr repr)"

definition get_sampler_from_str :: "string \<Rightarrow> py_error + DiffusionSampler" where
  "get_sampler_from_str s =
     (let algorithm_key = str_strip (str_lower s)
      in case map_of SAMPLERS algorithm_key of
           None \<Rightarrow> Inl (ValueError [S ''invalid sampler: '', S s])
         | Some repr \<Rightarrow> Inr repr)"

text \<open>A key that \<open>strip\<close> leaves as it is: not empty, no whitespace at either end.\<close>

definition clean_key :: "string \<Rightarrow> bool" where
  "clean_key k = (k \<noteq> [] \<and> \<not> is_space (hd k) \<and> \<not> is_space (last k))"

section \<open>Filename builder\<close>

definition truncate_fit :: "string \<Rightarrow> string \<Rightarrow> string \<Rightarrow> int \<Rightarrow> int \<Rightarrow> int \<Rightarrow> string" where
  "truncate_fit prefix prompt ext ts idx maxlen =
     (let post = ''_'' @ str_of_int ts @ ''_'' @ str_of_int idx;
          prompt_budget = maxlen;
          prompt_budget = prompt_budget - int (length prefix);
          prompt_budget = prompt_budget - int (length post);
          prompt_budget = prompt_budget - (int (length ext) + 1)
      in prefix @ slice_to prompt prompt_budget @ post @ ext)"

section \<open>Warp operation builders\<close>

text \<open>
  \<open>TransformWarp2d\<close>, \<open>TransformWarp3d\<close> and \<open>TransformOperation\<close> are messages of the
  generated protocol module. Modelled from the spec: a record per message with the
  fields \<open>utils.py\<close> assigns, and a tagged variant for the operation.
\<close>

record TransformWarp2d =
  border_mode2 :: BorderMode
  rotate :: pyfloat
  scale :: pyfloat
  translate_x2 :: pyfloat
  translate_y2 :: pyfloat

record TransformWarp3d =
  border_mode :: BorderMode
  translate_x :: pyfloat
  translate_y :: pyfloat
  translate_z :: pyfloat
  rotate_x :: pyfloat
  rotate_y :: pyfloat
  rotate_z :: pyfloat
  near_plane :: pyfloat
  far_plane :: pyfloat
  fov :: pyfloat

datatype TransformOperation = warp2d TransformWarp2d | warp3d TransformWarp3d

definition warp2d_op :: "pyfloat \<Rightarrow> pyfloat \<Rightarrow> pyfloat \<Rightarrow> pyfloat \<Rightarrow> string \<Rightarrow> py_error + TransformOperation" where
  "warp2d_op dx dy rotate' scale' border =
     (case border_mode_from_str_2d border of
        Inl e \<Rightarrow> Inl e
      | Inr b \<Rightarrow>
          Inr (warp2d \<lparr>border_mode2 = b, rotate = rotate', scale = scale',
                       translate_x2 = dx, translate_y2 = dy\<rparr>))"

definition warp3d_op ::
  "pyfloat \<Rightarrow> pyfloat \<Rightarrow> pyfloat \<Rightarrow> pyfloat \<Rightarrow> pyfloat \<Rightarrow> pyfloat \<Rightarrow> pyfloat \<Rightarrow> pyfloat
     \<Rightarrow> pyfloat \<Rightarrow> string
     \<Rightarrow> py_error + TransformOperation" where
  "warp3d_op dx dy dz rx ry rz near far fov' border =
     (if \<not> float_lt near far then
        Inl (ValueError [S ''Invalid camera volume: must satisfy near < far, '',
                         S ''got near='', F near, S '', far='', F far])
      else if \<not> float_lt (Finite 0) fov' then
        Inl (ValueError [S ''Invalid camera volume: fov must be greater than 0, '',
                         S ''got fov='', F fov'])
      else
        (case border_mode_from_str_3d border of
           Inl e \<Rightarrow> Inl e
         | Inr b \<Rightarrow>
             Inr (warp3d \<lparr>border_mode = b, translate_x = dx, translate_y = dy,
                          translate_z = dz, rotate_x = rx, rotate_y = ry, rotate_z = rz,
                          near_plane = near, far_plane = far, fov = fov'\<rparr>)))"

section \<open>Keyframe strings\<close>

text \<open>
  A Python dict is the list of its items in insertion order, with distinct keys.
  \<open>d[k] = v\<close> replaces the value of an existing key in place and appends a new key.
\<close>

fun dict_set :: "('k \<times> 'v) list \<Rightarrow> 'k \<Rightarrow> 'v \<Rightarrow> ('k \<times> 'v) list" where
  "dict_set [] k v = [(k, v)]"
| "dict_set ((k', v') # d) k v = (if k' = k then (k, v) # d else (k', v') # dict_set d k v)"

definition is_digit :: "char \<Rightarrow> bool" where
  "is_digit c = (c \<in> set digits)"

definition digit_value :: "char \<Rightarrow> nat" where
  "digit_value c = length (takeWhile (\<lambda>d. d \<noteq> c) digits)"

text \<open>The number that a string of decimal digits spells.\<close>

definition decimal_value :: "string \<Rightarrow> int" where
  "decimal_value ds = foldl (\<lambda>acc c. 10 * acc + int (digit_value c)) 0 ds"

text \<open>
  \<open>int(frame)\<close> on a string of decimal digits. CPython refuses a string of more than
  4300 digits, leading zeros counted (the default of \<open>sys.get_int_max_str_digits()\<close>).
\<close>

definition int_max_str_digits :: nat where
  "int_max_str_digits = 4300"

definition int_of_digits :: "string \<Rightarrow> py_error + int" where
  "int_of_digits ds =
     (if length ds > int_max_str_digits then
        Inl (ValueError
          [S ''Exceeds the limit (4300 digits) for integer string conversion: value has '',
           S (digits_of_nat (length ds)),
           S '' digits; use sys.set_int_max_str_digits() to increase the limit''])
      else Inr (decimal_value ds))"

text \<open>
  One attempt of the pattern \<open>((?P<frame>[0-9]+):[\s]*[\(](?P<param>[\S\s]*?)[\)])\<close> at
  the start of a string: the longest run of digits (not empty), a colon, the longest run
  of whitespace, an opening parenthesis, and the shortest text up to a closing
  parenthesis. The result is the frame group, the param group and the text after the
  match. The greedy runs never need to give characters back: the character after a
  shortened run would be a digit (or a whitespace character), not the colon (or the
  parenthesis) that has to follow.
\<close>

definition match_at :: "string \<Rightarrow> (string \<times> string \<times> string) option" where
  "match_at s =
     (let frame = takeWhile is_digit s; s1 = dropWhile is_digit s
      in if frame = [] then None
         else case s1 of
           [] \<Rightarrow> None
         | c # s2 \<Rightarrow>
             if c \<noteq> CHR '':'' then None
             else (case dropWhile is_space s2 of
               [] \<Rightarrow> None
             | c' # s3 \<Rightarrow>
                 if c' \<noteq> CHR ''('' then None
                 else (case dropWhile (\<lambda>x. x \<noteq> CHR '')'') s3 of
                   [] \<Rightarrow> None
                 | c'' # rest \<Rightarrow> Some (frame, takeWhile (\<lambda>x. x \<noteq> CHR '')'') s3, rest))))"

lemma match_at_shorter:
  assumes "match_at s = Some (frame, param, rest)"
  shows "length rest < length s"
proof -
  have len: "\<And>P (xs :: string) y ys. dropWhile P xs = y # ys \<Longrightarrow> length ys < length xs"
  proof -
    fix P and xs :: string and y ys
    assume "dropWhile P xs = y # ys"
    then have "length (y # ys) \<le> length xs"
      using length_dropWhile_le [of P xs] by simp
    then show "length ys < length xs" by simp
  qed
  from assms obtain c s2 c' s3 c'' where
    a: "dropWhile is_digit s = c # s2" and
    b: "dropWhile is_space s2 = c' # s3" and
    c: "dropWhile (\<lambda>x. x \<noteq> CHR '')'') s3 = c'' # rest"
    by (auto simp: match_at_def Let_def split: list.splits if_splits)
  from len [OF a] len [OF b] len [OF c] show ?thesis by simp
qed

text \<open>
  \<open>re.finditer\<close>: scan from the left; after a match continue behind it, otherwise move
  one character on. Each result is the pair of the groups \<open>frame\<close> and \<open>param\<close>.
\<close>

function finditer :: "string \<Rightarrow> (string \<times> string) list" where
  "finditer [] = []"
| "finditer (c # cs) =
     (case match_at (c # cs) of
        None \<Rightarrow> finditer cs
      | Some (frame, param, rest) \<Rightarrow> (frame, param) # finditer rest)"
  by pat_completeness auto
termination
  by (relation "measure length") (auto dest: match_at_shorter)

text \<open>
  A value of the resulting dict is the param text itself when no parser is given, and
  the parser's result otherwise. The parser is a function of the param text that
  returns a value or raises. What \<open>key_frame_parse\<close> raises is either an exception that
  came out of the parser or one of its own (from \<open>int\<close>, or its \<open>RuntimeError\<close>).
\<close>

datatype 'v param_value = Raw string | Parsed 'v

datatype 'e raised = Parser_raised 'e | Raised py_error

fun frames_loop ::
  "(string \<Rightarrow> 'e + 'v) option \<Rightarrow> (int \<times> 'v param_value) list \<Rightarrow> (string \<times> string) list
     \<Rightarrow> 'e raised + (int \<times> 'v param_value) list" where
  "frames_loop prompt_parser frames [] = Inr frames"
| "frames_loop prompt_parser frames ((frame_group, param) # ms) =
     (case int_of_digits frame_group of
        Inl err \<Rightarrow> Inl (Raised err)
      | Inr frame \<Rightarrow>
          (case prompt_parser of
             Some f \<Rightarrow>
               (case f param of
                  Inl e \<Rightarrow> Inl (Parser_raised e)
                | Inr v \<Rightarrow> frames_loop prompt_parser (dict_set frames frame (Parsed v)) ms)
           | None \<Rightarrow> frames_loop prompt_parser (dict_set frames frame (Raw param)) ms))"

definition key_frame_parse ::
  "string \<Rightarrow> (string \<Rightarrow> 'e + 'v) option \<Rightarrow> 'e raised + (int \<times> 'v param_value) list" where
  "key_frame_parse string prompt_parser =
     (case frames_loop prompt_parser [] (finditer string) of
        Inl e \<Rightarrow> Inl e
      | Inr frames \<Rightarrow>
          if frames = [] \<and> length string \<noteq> 0
          then Inl (Raised (RuntimeError ''Key Frame string not correctly formatted''))
          else Inr frames)"


text \<open>
  The segments of a string, as a search from the left for non-overlapping matches finds
  them: where a segment starts, the segment is taken, with its run of digits, its
  whitespace and its text up to the first closing parenthesis, and the search goes on
  behind it; where none starts, the search moves one character on. A segment is given
  by its digits and its parameter text.
\<close>

definition starts_with_segment :: "string \<Rightarrow> bool" where
  "starts_with_segment s =
     (\<exists>ds ws p post.
        s = ds @ CHR '':'' # ws @ CHR ''('' # p @ CHR '')'' # post
        \<and> ds \<noteq> [] \<and> (\<forall>c\<in>set ds. is_digit c) \<and> (\<forall>c\<in>set ws. is_space c))"

inductive segmentation :: "string \<Rightarrow> (string \<times> string) list \<Rightarrow> bool" where
  seg_end: "segmentation [] []"
| seg_skip: "\<not> starts_with_segment (c # cs) \<Longrightarrow> segmentation cs ms \<Longrightarrow> segmentation (c # cs) ms"
| seg_match:
    "ds \<noteq> [] \<Longrightarrow> \<forall>c\<in>set ds. is_digit c \<Longrightarrow> \<forall>c\<in>set ws. is_space c \<Longrightarrow> CHR '')'' \<notin> set p
       \<Longrightarrow> segmentation rest ms
       \<Longrightarrow> segmentation (ds @ CHR '':'' # ws @ CHR ''('' # p @ CHR '')'' # rest) ((ds, p) # ms)"

text \<open>Assigning a list of items to a dict, one after the other.\<close>

fun record_all :: "('k \<times> 'v) list \<Rightarrow> ('k \<times> 'v) list \<Rightarrow> ('k \<times> 'v) list" where
  "record_all d [] = d"
| "record_all d ((k, v) # es) = record_all (dict_set d k v) es"

section \<open>Keyframe expansion\<close>

text \<open>
  A pandas \<open>Series\<close> of floats is the list of its entries in index order, each a label
  and a value, where \<open>None\<close> stands for NaN. Labels are integers, and \<open>s[k]\<close> reads and
  writes by label; writing a label the index does not have appends a new entry, which
  is what \<open>dict_set\<close> does. Keyframe values are numbers, read as reals. A series
  created empty (\<open>max_frames \<le> 0\<close>) is taken to behave in the same way.
\<close>

type_synonym series = "(int \<times> real option) list"

text \<open>\<open>pd.Series([np.nan for a in range(max_frames)])\<close>\<close>

definition new_series :: "int \<Rightarrow> series" where
  "new_series max_frames = map (\<lambda>a. (int a, None)) [0..<nat max_frames]"

text \<open>\<open>for i, value in key_frames.items(): key_frame_series[i] = value\<close>\<close>

fun set_key_frames :: "series \<Rightarrow> (int \<times> real) list \<Rightarrow> series" where
  "set_key_frames s [] = s"
| "set_key_frames s ((i, v) # key_frames) = set_key_frames (dict_set s i (Some v)) key_frames"

fun first_valid_index :: "series \<Rightarrow> int option" where
  "first_valid_index [] = None"
| "first_valid_index ((k, v) # s) = (if v \<noteq> None then Some k else first_valid_index s)"

fun last_valid_index :: "series \<Rightarrow> int option" where
  "last_valid_index [] = None"
| "last_valid_index ((k, v) # s) =
     (case last_valid_index s of
        Some l \<Rightarrow> Some l
      | None \<Rightarrow> if v \<noteq> None then Some k else None)"

text \<open>\<open>s[k]\<close> for the result \<open>k\<close> of one of the two functions above; \<open>None\<close> is not a label.\<close>

definition series_getitem :: "series \<Rightarrow> int option \<Rightarrow> py_error + real option" where
  "series_getitem s k =
     (case k of
        None \<Rightarrow> Inl KeyError
      | Some l \<Rightarrow> (case map_of s l of None \<Rightarrow> Inl KeyError | Some v \<Rightarrow> Inr v))"

text \<open>Lines 200 to 203: the method that is handed to \<open>interpolate\<close>.\<close>

definition effective_method :: "string \<Rightarrow> nat \<Rightarrow> string" where
  "effective_method interp_method n =
     (let m = (if interp_method = ''Cubic'' \<and> n \<le> 3 then ''Quadratic'' else interp_method)
      in if m = ''Quadratic'' \<and> n \<le> 2 then ''Linear'' else m)"

text \<open>
  \<open>Series.interpolate(method, limit_direction='both')\<close> writes the NaN entries only and
  leaves every other entry as it is. For \<open>linear\<close> the entries count as equally
  spaced and a NaN entry gets the value of \<open>np.interp\<close> over the positions of the
  defined entries: on the line through the two neighbouring defined entries, or the
  value of the nearest one outside their range. Any other method is the parameter
  \<open>scipy\<close>: given the method name and the series, it raises or yields the value for
  each position.
\<close>

fun valid_points :: "nat \<Rightarrow> series \<Rightarrow> (nat \<times> real) list" where
  "valid_points i [] = []"
| "valid_points i ((k, v) # s) =
     (case v of
        None \<Rightarrow> valid_points (Suc i) s
      | Some y \<Rightarrow> (i, y) # valid_points (Suc i) s)"

fun np_interp :: "(nat \<times> real) list \<Rightarrow> nat \<Rightarrow> real option" where
  "np_interp [] x = None"
| "np_interp [(a, ya)] x = Some ya"
| "np_interp ((a, ya) # (b, yb) # ps) x =
     (if x \<le> a then Some ya
      else if x < b then Some ((yb - ya) / (real b - real a) * (real x - real a) + ya)
      else np_interp ((b, yb) # ps) x)"

fun fill_nan :: "nat \<Rightarrow> (nat \<Rightarrow> real option) \<Rightarrow> series \<Rightarrow> series" where
  "fill_nan i g [] = []"
| "fill_nan i g ((k, v) # s) =
     (k, (case v of None \<Rightarrow> g i | Some y \<Rightarrow> Some y)) # fill_nan (Suc i) g s"

definition interpolate ::
  "(string \<Rightarrow> series \<Rightarrow> py_error + (nat \<Rightarrow> real option)) \<Rightarrow> string \<Rightarrow> series
     \<Rightarrow> py_error + series" where
  "interpolate scipy method s =
     (if method = ''linear'' then Inr (fill_nan 0 (np_interp (valid_points 0 s)) s)
      else (case scipy method s of
              Inl e \<Rightarrow> Inl e
            | Inr g \<Rightarrow> Inr (fill_nan 0 g s)))"

text \<open>
  \<open>astype(int)\<close> converts to 64-bit integers: it raises on NaN and truncates toward
  zero, and a value whose truncation is outside the int64 range becomes the least
  int64, as the conversion of numpy does on x86-64, without an error.
\<close>

definition trunc_to_zero :: "real \<Rightarrow> int" where
  "trunc_to_zero x = (if 0 \<le> x then \<lfloor>x\<rfloor> else \<lceil>x\<rceil>)"

definition float_to_int64 :: "real \<Rightarrow> int" where
  "float_to_int64 x =
     (let t = trunc_to_zero x
      in if - (2 ^ 63) \<le> t \<and> t < 2 ^ 63 then t else - (2 ^ 63))"

fun astype_int :: "series \<Rightarrow> py_error + (int \<times> int) list" where
  "astype_int [] = Inr []"
| "astype_int ((k, v) # s) =
     (case v of
        None \<Rightarrow> Inl (ValueError [S ''Cannot convert non-finite values (NA or inf) to integer''])
      | Some y \<Rightarrow> (case astype_int s of
                     Inl e \<Rightarrow> Inl e
                   | Inr r \<Rightarrow> Inr ((k, float_to_int64 y) # r)))"

datatype series_out = FloatSeries series | IntSeries "(int \<times> int) list"

definition key_frame_inbetweens ::
  "(string \<Rightarrow> series \<Rightarrow> py_error + (nat \<Rightarrow> real option)) \<Rightarrow> (int \<times> real) list \<Rightarrow> int
     \<Rightarrow> bool \<Rightarrow> string \<Rightarrow> py_error + series_out" where
  "key_frame_inbetweens scipy key_frames max_frames integer interp_method =
     (let key_frame_series = set_key_frames (new_series max_frames) key_frames;
          interp_method = effective_method interp_method (length key_frames)
      in case series_getitem key_frame_series (first_valid_index key_frame_series) of
           Inl e \<Rightarrow> Inl e
         | Inr first_value \<Rightarrow>
            (let key_frame_series = dict_set key_frame_series 0 first_value
             in case series_getitem key_frame_series (last_valid_index key_frame_series) of
                  Inl e \<Rightarrow> Inl e
                | Inr last_value \<Rightarrow>
                   (let key_frame_series = dict_set key_frame_series (max_frames - 1) last_value
                    in case interpolate scipy (str_lower interp_method) key_frame_series of
                         Inl e \<Rightarrow> Inl e
                       | Inr key_frame_series \<Rightarrow>
                          if integer then
                            (case astype_int key_frame_series of
                               Inl e \<Rightarrow> Inl e
                             | Inr r \<Rightarrow> Inr (IntSeries r))
                          else Inr (FloatSeries key_frame_series))))"




section \<open>Transform request/response pipeline\<close>

text \<open>
  \<open>Artifact\<close>, \<open>Prompt\<close> and \<open>Request\<close> are messages of the generated protocol module.
  Modelled from the spec: an artifact is a type tag (image, mask, or other) with a binary
  payload; a prompt wraps one artifact with the \<open>init\<close> flag of its parameters; a request holds the engine
  identifier, the prompts and the transform sequence.
\<close>

datatype ArtifactType = ARTIFACT_IMAGE | ARTIFACT_MASK | ARTIFACT_OTHER

record 'b Artifact =
  artifact_type :: ArtifactType
  binary :: 'b

record 'b Prompt =
  parameters_init :: bool
  artifact :: "'b Artifact"

record 'b Request =
  engine_id :: string
  request_prompt :: "'b Prompt list"
  transform_sequence :: "TransformOperation list"

text \<open>
  The PNG encoder is a parameter \<open>image_to_png_bytes\<close>; the argument is an array, so the
  \<open>isinstance\<close> test takes its first branch.
\<close>

definition image_to_prompt :: "('i \<Rightarrow> 'b) \<Rightarrow> 'i \<Rightarrow> bool \<Rightarrow> 'b Prompt" where
  "image_to_prompt image_to_png_bytes img is_mask =
     \<lparr>parameters_init = \<not> is_mask,
      artifact = \<lparr>artifact_type = (if is_mask then ARTIFACT_MASK else ARTIFACT_IMAGE),
                  binary = image_to_png_bytes img\<rparr>\<rparr>"

text \<open>
  The decoder (\<open>np.frombuffer\<close> followed by \<open>cv2.imdecode\<close>) is a parameter
  \<open>imdecode\<close>. Its result is the Python value that the loop stores: an image, or \<open>None\<close>
  for a buffer that does not decode. The state of the loop is the list \<open>images\<close> and the
  slot \<open>mask\<close> (written \<open>mask'\<close>), which starts as \<open>None\<close>.
\<close>

type_synonym 'i xform_state = "'i option list \<times> 'i option"

definition multiple_masks :: string where
  "multiple_masks = ''multiple masks returned in response, cliend implementaion currently assumes no more than one mask returned''"

definition handle_artifact ::
  "('b \<Rightarrow> 'i option) \<Rightarrow> 'i xform_state \<Rightarrow> 'b Artifact \<Rightarrow> py_error + 'i xform_state" where
  "handle_artifact imdecode st a =
     (case st of (images, mask') \<Rightarrow>
        if artifact_type a = ARTIFACT_IMAGE \<or> artifact_type a = ARTIFACT_MASK then
          (let im = imdecode (binary a)
           in if artifact_type a = ARTIFACT_IMAGE then Inr (images @ [im], mask')
              else if artifact_type a = ARTIFACT_MASK then
                (if mask' \<noteq> None then Inl (Exception multiple_masks)
                 else Inr (images, im))
              else Inr (images, mask'))
        else Inr (images, mask'))"

fun artifacts_loop ::
  "('b \<Rightarrow> 'i option) \<Rightarrow> 'i xform_state \<Rightarrow> 'b Artifact list \<Rightarrow> py_error + 'i xform_state" where
  "artifacts_loop imdecode st [] = Inr st"
| "artifacts_loop imdecode st (a # as) =
     (case handle_artifact imdecode st a of
        Inl e \<Rightarrow> Inl e
      | Inr st' \<Rightarrow> artifacts_loop imdecode st' as)"

fun responses_loop ::
  "('b \<Rightarrow> 'i option) \<Rightarrow> 'i xform_state \<Rightarrow> 'b Artifact list list \<Rightarrow> py_error + 'i xform_state" where
  "responses_loop imdecode st [] = Inr st"
| "responses_loop imdecode st (resp # rs) =
     (case artifacts_loop imdecode st resp of
        Inl e \<Rightarrow> Inl e
      | Inr st' \<Rightarrow> responses_loop imdecode st' rs)"

text \<open>
  \<open>stub.Generate\<close> is the parameter \<open>generate\<close>: it takes the request and yields the
  response stream, each response being its list of artifacts.
\<close>

definition image_xform ::
  "('b Request \<Rightarrow> 'b Artifact list list) \<Rightarrow> ('i \<Rightarrow> 'b) \<Rightarrow> ('b \<Rightarrow> 'i option)
     \<Rightarrow> 'i list \<Rightarrow> TransformOperation list \<Rightarrow> string \<Rightarrow> py_error + 'i xform_state" where
  "image_xform generate image_to_png_bytes imdecode images ops engine =
     (if length images = 0 then Inl AssertionError
      else
        (let p = map (\<lambda>img. image_to_prompt image_to_png_bytes img False) images;
             rq = \<lparr>engine_id = engine, request_prompt = p, transform_sequence = ops\<rparr>
         in responses_loop imdecode ([], None) (generate rq)))"

text \<open>The three kinds of artifact the loop tells apart.\<close>

definition image_or_mask :: "'b Artifact \<Rightarrow> bool" where
  "image_or_mask a = (artifact_type a = ARTIFACT_IMAGE \<or> artifact_type a = ARTIFACT_MASK)"

definition is_image :: "'b Artifact \<Rightarrow> bool" where
  "is_image a = (artifact_type a = ARTIFACT_IMAGE)"

definition is_mask :: "'b Artifact \<Rightarrow> bool" where
  "is_mask a = (artifact_type a = ARTIFACT_MASK)"

section \<open>Properties of the string helpers\<close>

lemmas str_eval =
  str_strip_def str_lower_def lower_char_def is_space_def whitespace_def
  ascii_uppercase_def ascii_lowercase_def latin1_uppercase_def latin1_lowercase_def

lemma str_strip_padded:
  assumes l: "\<forall>c\<in>set l. is_space c" and r: "\<forall>c\<in>set r. is_space c" and k: "k \<noteq> []"
    and h: "\<not> is_space (hd k)" and t: "\<not> is_space (last k)"
  shows "str_strip (l @ k @ r) = k"
proof -
  have "dropWhile is_space (l @ k @ r) = dropWhile is_space (k @ r)"
    by (rule dropWhile_append2) (use l in blast)
  also have "\<dots> = k @ r"
    using k h by (cases k) simp_all
  finally have front: "dropWhile is_space (l @ k @ r) = k @ r" .
  have "dropWhile is_space (rev r @ rev k) = dropWhile is_space (rev k)"
    by (rule dropWhile_append2) (use r in simp)
  also have "\<dots> = rev k"
    using k t by (cases k rule: rev_cases) simp_all
  finally have rear: "dropWhile is_space (rev r @ rev k) = rev k" .
  show ?thesis by (simp add: str_strip_def front rear)
qed

lemma is_space_not_upper: "is_space c \<Longrightarrow> c \<notin> set (ascii_uppercase @ latin1_uppercase)"
proof -
  have "list_all (\<lambda>c. c \<notin> set (ascii_uppercase @ latin1_uppercase)) whitespace"
    by (simp add: whitespace_def ascii_uppercase_def latin1_uppercase_def)
  then show "is_space c \<Longrightarrow> c \<notin> set (ascii_uppercase @ latin1_uppercase)"
    by (simp add: is_space_def list_all_iff)
qed

lemma lower_char_space: "is_space c \<Longrightarrow> lower_char c = c"
proof -
  assume "is_space c"
  then have "c \<notin> set (ascii_uppercase @ latin1_uppercase)" by (rule is_space_not_upper)
  moreover have "length (ascii_uppercase @ latin1_uppercase) = length (ascii_lowercase @ latin1_lowercase)"
    by (simp add: ascii_uppercase_def ascii_lowercase_def latin1_uppercase_def latin1_lowercase_def)
  ultimately have "map_of (zip (ascii_uppercase @ latin1_uppercase) (ascii_lowercase @ latin1_lowercase)) c = None"
    by (simp add: map_of_zip_is_None)
  then show ?thesis by (simp add: lower_char_def)
qed

lemma str_lower_spaces: "\<forall>c\<in>set l. is_space c \<Longrightarrow> str_lower l = l"
  by (induction l) (simp_all add: str_lower_def lower_char_space)

lemma str_lower_padded:
  assumes "\<forall>c\<in>set l. is_space c" and "\<forall>c\<in>set r. is_space c"
  shows "str_lower (l @ s @ r) = l @ str_lower s @ r"
proof -
  have "str_lower (l @ s @ r) = str_lower l @ str_lower s @ str_lower r"
    by (simp add: str_lower_def)
  then show ?thesis using assms by (simp add: str_lower_spaces)
qed

lemma normalise_padded_key:
  assumes "clean_key k" and "str_lower s = k"
    and "\<forall>c\<in>set l. is_space c" and "\<forall>c\<in>set r. is_space c"
  shows "str_strip (str_lower (l @ s @ r)) = k"
  using assms by (simp add: str_lower_padded str_strip_padded clean_key_def)

lemma table_hit:
  assumes "distinct (map fst table)" and "list_all (\<lambda>(k, v). clean_key k) table"
    and "(k, v) \<in> set table" and "str_lower s = k"
    and "\<forall>c\<in>set l. is_space c" and "\<forall>c\<in>set r. is_space c"
  shows "map_of table (str_strip (str_lower (l @ s @ r))) = Some v"
proof -
  have "clean_key k"
    using assms(2,3) by (auto simp: list_all_iff)
  then have "str_strip (str_lower (l @ s @ r)) = k"
    using assms(4,5,6) by (rule normalise_padded_key)
  then show ?thesis
    using assms(1,3) by simp
qed

lemma table_miss: "k \<notin> fst ` set table \<Longrightarrow> map_of table k = None"
  by (simp add: map_of_eq_None_iff)

lemma BORDER_MODES_3D_items:
  "BORDER_MODES_3D =
     [(''replicate'', BORDER_REPLICATE), (''reflect'', BORDER_REFLECT), (''zero'', BORDER_ZERO)]"
  by (simp add: BORDER_MODES_3D_def BORDER_MODES_2D_def two_d_only_modes_def)

lemma tables_distinct:
  "distinct (map fst SAMPLERS)" "distinct (map fst GUIDANCE_PRESETS)"
  "distinct (map fst COLOR_SPACES)" "distinct (map fst BORDER_MODES_2D)"
  "distinct (map fst BORDER_MODES_3D)"
  by (simp_all add: SAMPLERS_def GUIDANCE_PRESETS_def COLOR_SPACES_def BORDER_MODES_2D_def
      BORDER_MODES_3D_items)

lemma tables_clean:
  "list_all (\<lambda>(k, v). clean_key k) SAMPLERS"
  "list_all (\<lambda>(k, v). clean_key k) GUIDANCE_PRESETS"
  "list_all (\<lambda>(k, v). clean_key k) COLOR_SPACES"
  "list_all (\<lambda>(k, v). clean_key k) BORDER_MODES_2D"
  "list_all (\<lambda>(k, v). clean_key k) BORDER_MODES_3D"
  by (simp_all add: SAMPLERS_def GUIDANCE_PRESETS_def COLOR_SPACES_def BORDER_MODES_2D_def
      BORDER_MODES_3D_items clean_key_def is_space_def whitespace_def)

section \<open>Enum lookup: every table key is found, every other string is rejected\<close>

text \<open>
  C8. For each lookup (sampler, guidance preset, colour-match space, 2D and 3D border
  mode): a string that lower-cases to a key of the table, with any whitespace around it,
  yields that key's enum value; a string whose lower-cased, stripped form is not a key
  raises \<open>ValueError\<close> with a message that ends in the string as given.
\<close>

theorem enum_lookup:
  "((k1, v1) \<in> set SAMPLERS \<and> str_lower s1 = k1 \<and> (\<forall>c\<in>set l. is_space c) \<and> (\<forall>c\<in>set r. is_space c)
      \<longrightarrow> get_sampler_from_str (l @ s1 @ r) = Inr v1) \<and>
   (str_strip (str_lower s) \<notin> fst ` set SAMPLERS
      \<longrightarrow> get_sampler_from_str s = Inl (ValueError [S ''invalid sampler: '', S s])) \<and>
   ((k2, v2) \<in> set GUIDANCE_PRESETS \<and> str_lower s2 = k2 \<and> (\<forall>c\<in>set l. is_space c) \<and> (\<forall>c\<in>set r. is_space c)
      \<longrightarrow> guidance_from_string (l @ s2 @ r) = Inr v2) \<and>
   (str_strip (str_lower s) \<notin> fst ` set GUIDANCE_PRESETS
      \<longrightarrow> guidance_from_string s = Inl (ValueError [S ''invalid guidance preset: '', S s])) \<and>
   ((k3, v3) \<in> set COLOR_SPACES \<and> str_lower s3 = k3 \<and> (\<forall>c\<in>set l. is_space c) \<and> (\<forall>c\<in>set r. is_space c)
      \<longrightarrow> color_match_from_string (l @ s3 @ r) = Inr v3) \<and>
   (str_strip (str_lower s) \<notin> fst ` set COLOR_SPACES
      \<longrightarrow> color_match_from_string s = Inl (ValueError [S ''invalid color space: '', S s])) \<and>
   ((k4, v4) \<in> set BORDER_MODES_2D \<and> str_lower s4 = k4 \<and> (\<forall>c\<in>set l. is_space c) \<and> (\<forall>c\<in>set r. is_space c)
      \<longrightarrow> border_mode_from_str_2d (l @ s4 @ r) = Inr v4) \<and>
   (str_strip (str_lower s) \<notin> fst ` set BORDER_MODES_2D
      \<longrightarrow> border_mode_from_str_2d s = Inl (ValueError [S ''invalid 2d border mode '', S s])) \<and>
   ((k5, v5) \<in> set BORDER_MODES_3D \<and> str_lower s5 = k5 \<and> (\<forall>c\<in>set l. is_space c) \<and> (\<forall>c\<in>set r. is_space c)
      \<longrightarrow> border_mode_from_str_3d (l @ s5 @ r) = Inr v5) \<and>
   (str_strip (str_lower s) \<notin> fst ` set BORDER_MODES_3D
      \<longrightarrow> border_mode_from_str_3d s = Inl (ValueError [S ''invalid 3d border mode '', S s]))"
proof -
  show ?thesis
    unfolding get_sampler_from_str_def guidance_from_string_def color_match_from_string_def
      border_mode_from_str_2d_def border_mode_from_str_3d_def Let_def
    by (intro conjI impI; (elim conjE)?)
       (simp_all add: table_hit [OF tables_distinct(1) tables_clean(1)]
         table_hit [OF tables_distinct(2) tables_clean(2)]
         table_hit [OF tables_distinct(3) tables_clean(3)]
         table_hit [OF tables_distinct(4) tables_clean(4)]
         table_hit [OF tables_distinct(5) tables_clean(5)] table_miss)
qed

theorem enum_lookup_witness:
  "get_sampler_from_str ([CHR 0xA0] @ ''K_Euler'' @ [CHR 0x85]) = Inr SAMPLER_K_EULER \<and>
   get_sampler_from_str ''euler'' = Inl (ValueError [S ''invalid sampler: '', S ''euler'']) \<and>
   guidance_from_string ([CHR 0xA0] @ ''FastBlue'' @ [CHR 0x85]) = Inr GUIDANCE_PRESET_FAST_BLUE \<and>
   guidance_from_string ''euler'' = Inl (ValueError [S ''invalid guidance preset: '', S ''euler'']) \<and>
   color_match_from_string ([CHR 0xA0] @ ''LAB'' @ [CHR 0x85]) = Inr COLOR_MATCH_LAB \<and>
   color_match_from_string ''euler'' = Inl (ValueError [S ''invalid color space: '', S ''euler'']) \<and>
   border_mode_from_str_2d ([CHR 0xA0] @ ''Wrap'' @ [CHR 0x85]) = Inr BORDER_WRAP \<and>
   border_mode_from_str_2d ''euler'' = Inl (ValueError [S ''invalid 2d border mode '', S ''euler'']) \<and>
   border_mode_from_str_3d ([CHR 0xA0] @ ''ZERO'' @ [CHR 0x85]) = Inr BORDER_ZERO \<and>
   border_mode_from_str_3d ''euler'' = Inl (ValueError [S ''invalid 3d border mode '', S ''euler''])"
proof -
  have sp: "\<forall>c\<in>set [CHR 0xA0]. is_space c" "\<forall>c\<in>set [CHR 0x85]. is_space c"
    by (simp_all add: is_space_def whitespace_def)
  have lo: "str_lower ''K_Euler'' = ''k_euler''" "str_lower ''FastBlue'' = ''fastblue''"
    "str_lower ''LAB'' = ''lab''" "str_lower ''Wrap'' = ''wrap''" "str_lower ''ZERO'' = ''zero''"
    by (simp_all add: str_eval)
  have mem: "(''k_euler'', SAMPLER_K_EULER) \<in> set SAMPLERS"
    "(''fastblue'', GUIDANCE_PRESET_FAST_BLUE) \<in> set GUIDANCE_PRESETS"
    "(''lab'', COLOR_MATCH_LAB) \<in> set COLOR_SPACES"
    "(''wrap'', BORDER_WRAP) \<in> set BORDER_MODES_2D"
    "(''zero'', BORDER_ZERO) \<in> set BORDER_MODES_3D"
    by (simp_all add: SAMPLERS_def GUIDANCE_PRESETS_def COLOR_SPACES_def BORDER_MODES_2D_def
        BORDER_MODES_3D_items)
  have e: "str_strip (str_lower ''euler'') = ''euler''"
    by (simp add: str_eval)
  have notin: "''euler'' \<notin> fst ` set SAMPLERS" "''euler'' \<notin> fst ` set GUIDANCE_PRESETS"
    "''euler'' \<notin> fst ` set COLOR_SPACES" "''euler'' \<notin> fst ` set BORDER_MODES_2D"
    "''euler'' \<notin> fst ` set BORDER_MODES_3D"
    by (simp_all add: SAMPLERS_def GUIDANCE_PRESETS_def COLOR_SPACES_def BORDER_MODES_2D_def
        BORDER_MODES_3D_items)
  show ?thesis
    using enum_lookup [of "''k_euler''" SAMPLER_K_EULER "''K_Euler''" "[CHR 0xA0]" "[CHR 0x85]" "''euler''"
        "''fastblue''" GUIDANCE_PRESET_FAST_BLUE "''FastBlue''"
        "''lab''" COLOR_MATCH_LAB "''LAB''" "''wrap''" BORDER_WRAP "''Wrap''"
        "''zero''" BORDER_ZERO "''ZERO''"] sp lo mem e notin
    by simp
qed

section \<open>Filename builder: the prompt budget\<close>

lemma truncate_fit_budget:
  "truncate_fit prefix prompt ext ts idx maxlen =
     prefix @ slice_to prompt
       (maxlen - int (length prefix) - int (length (''_'' @ str_of_int ts @ ''_'' @ str_of_int idx))
          - int (length ext) - 1)
     @ (''_'' @ str_of_int ts @ ''_'' @ str_of_int idx) @ ext"
  by (simp add: truncate_fit_def Let_def algebra_simps)


lemma slice_to_nonneg: "0 \<le> k \<Longrightarrow> slice_to xs k = take (nat k) xs"
  by (simp add: slice_to_def)

lemma slice_to_negative: "0 < n \<Longrightarrow> slice_to xs (- int n) = take (length xs - n) xs"
proof -
  assume "0 < n"
  moreover have "nat (int (length xs) - int n) = length xs - n"
    by arith
  ultimately show ?thesis
    by (simp add: slice_to_def)
qed

lemma truncate_fit_zero_budget:
  assumes "maxlen = int (length prefix)
      + int (length (''_'' @ str_of_int ts @ ''_'' @ str_of_int idx)) + int (length ext) + 1"
  shows "truncate_fit prefix prompt ext ts idx maxlen
      = prefix @ (''_'' @ str_of_int ts @ ''_'' @ str_of_int idx) @ ext"
  using assms by (simp add: truncate_fit_def Let_def slice_to_def)

lemma truncate_fit_short_by:
  assumes "0 < n" and "maxlen + int n = int (length prefix)
      + int (length (''_'' @ str_of_int ts @ ''_'' @ str_of_int idx)) + int (length ext) + 1"
  shows "truncate_fit prefix prompt ext ts idx maxlen
      = prefix @ take (length prompt - n) prompt
          @ (''_'' @ str_of_int ts @ ''_'' @ str_of_int idx) @ ext"
proof -
  have "maxlen - int (length prefix)
      - int (length (''_'' @ str_of_int ts @ ''_'' @ str_of_int idx)) - int (length ext) - 1
      = - int n"
    using assms(2) by simp
  then show ?thesis
    using slice_to_negative [OF assms(1), of prompt] by (simp only: truncate_fit_budget)
qed

lemma str_of_int_12345: "str_of_int 12345 = ''12345''"
  by (simp add: str_of_int_def digits_of_nat.simps digits_def)

lemma str_of_int_3: "str_of_int 3 = ''3''"
  by (simp add: str_of_int_def digits_of_nat.simps digits_def)

text \<open>
  C1. With a negative budget the slice \<open>prompt[:budget]\<close> drops the last \<open>-budget\<close>
  characters of the prompt and keeps the rest; it is not empty. For the prefix \<open>a_\<close>, the
  prompt \<open>a very long prompt\<close>, the extension \<open>.png\<close>, timestamp 12345, index 3 and
  \<open>max = 5\<close> the budget is -10, and the file name built still carries the first eight
  characters of the prompt.
\<close>

theorem truncate_fit_negative_budget_keeps_prompt:
  "truncate_fit ''a_'' ''a very long prompt'' ''.png'' 12345 3 5 = ''a_a very l_12345_3.png''
   \<and> 5 - int (length ''a_'') - int (length (''_'' @ str_of_int 12345 @ ''_'' @ str_of_int 3))
         - (int (length ''.png'') + 1) = - 10"
  by (simp add: truncate_fit_def str_of_int_12345 str_of_int_3 slice_to_def)

section \<open>3D warp builder\<close>

lemma not_float_lt: "\<not> float_lt a b \<longleftrightarrow> float_ge a b \<or> is_nan a \<or> is_nan b"
  by (cases a; cases b) (simp_all add: float_ge_def is_nan_def)

text \<open>
  C6, as the code has it. When \<open>near < far\<close> does not hold, that is when \<open>near >= far\<close> or
  one of the two is NaN, \<open>warp3d_op\<close> raises \<open>ValueError\<close> with a message that gives
  \<open>near\<close> and \<open>far\<close>; otherwise, when \<open>fov > 0\<close> does not hold, that is when \<open>fov <= 0\<close> or
  \<open>fov\<close> is NaN, it raises \<open>ValueError\<close> with a message that gives \<open>fov\<close>. With
  \<open>near < far\<close> and \<open>fov > 0\<close> the border name goes through the 3D lookup: a name that
  lower-cases to a key of the 3D table (whitespace around it allowed) gives the 3D-warp
  operation with all ten fields set from the arguments, and any other name raises the
  lookup's \<open>ValueError\<close>.
\<close>

theorem warp3d_op_checked:
  "(\<not> float_lt near far \<longrightarrow>
      warp3d_op dx dy dz rx ry rz near far fov' border =
        Inl (ValueError [S ''Invalid camera volume: must satisfy near < far, '',
                         S ''got near='', F near, S '', far='', F far])) \<and>
   (float_lt near far \<and> \<not> float_lt (Finite 0) fov' \<longrightarrow>
      warp3d_op dx dy dz rx ry rz near far fov' border =
        Inl (ValueError [S ''Invalid camera volume: fov must be greater than 0, '',
                         S ''got fov='', F fov'])) \<and>
   (float_lt near far \<and> float_lt (Finite 0) fov' \<and> (k, b) \<in> set BORDER_MODES_3D
      \<and> str_lower s = k \<and> (\<forall>c\<in>set l. is_space c) \<and> (\<forall>c\<in>set r. is_space c) \<longrightarrow>
      warp3d_op dx dy dz rx ry rz near far fov' (l @ s @ r) =
        Inr (warp3d \<lparr>border_mode = b, translate_x = dx, translate_y = dy,
                     translate_z = dz, rotate_x = rx, rotate_y = ry, rotate_z = rz,
                     near_plane = near, far_plane = far, fov = fov'\<rparr>)) \<and>
   (float_lt near far \<and> float_lt (Finite 0) fov'
      \<and> str_strip (str_lower border) \<notin> fst ` set BORDER_MODES_3D \<longrightarrow>
      warp3d_op dx dy dz rx ry rz near far fov' border =
        Inl (ValueError [S ''invalid 3d border mode '', S border])) \<and>
   (\<not> float_lt near far \<longleftrightarrow> float_ge near far \<or> is_nan near \<or> is_nan far) \<and>
   (\<not> float_lt (Finite 0) fov' \<longleftrightarrow> float_ge (Finite 0) fov' \<or> is_nan fov')"
proof -
  have "\<not> float_lt (Finite 0) fov' \<longleftrightarrow> float_ge (Finite 0) fov' \<or> is_nan fov'"
    using not_float_lt [of "Finite 0" fov'] by (simp add: is_nan_def)
  then show ?thesis
    unfolding warp3d_op_def border_mode_from_str_3d_def
    by (intro conjI impI; (elim conjE)?)
       (simp_all add: table_hit [OF tables_distinct(5) tables_clean(5)] table_miss not_float_lt)
qed

theorem warp3d_op_checked_witness:
  "warp3d_op (Finite 1) (Finite 2) (Finite 3) (Finite 4) (Finite 5) (Finite 6)
       (Finite 5) (Finite 5) (Finite 1) ''zero'' =
      Inl (ValueError [S ''Invalid camera volume: must satisfy near < far, '',
                       S ''got near='', F (Finite 5), S '', far='', F (Finite 5)]) \<and>
   warp3d_op (Finite 1) (Finite 2) (Finite 3) (Finite 4) (Finite 5) (Finite 6)
       NaN (Finite 5) (Finite 1) ''zero'' =
      Inl (ValueError [S ''Invalid camera volume: must satisfy near < far, '',
                       S ''got near='', F NaN, S '', far='', F (Finite 5)]) \<and>
   warp3d_op (Finite 1) (Finite 2) (Finite 3) (Finite 4) (Finite 5) (Finite 6)
       (Finite 1) (Finite 5) (Finite 0) ''zero'' =
      Inl (ValueError [S ''Invalid camera volume: fov must be greater than 0, '',
                       S ''got fov='', F (Finite 0)]) \<and>
   warp3d_op (Finite 1) (Finite 2) (Finite 3) (Finite 4) (Finite 5) (Finite 6)
       (Finite 1) (Finite 5) (Finite 90) ([CHR 0xA0] @ ''Reflect'' @ '' '') =
      Inr (warp3d \<lparr>border_mode = BORDER_REFLECT, translate_x = Finite 1,
                   translate_y = Finite 2, translate_z = Finite 3, rotate_x = Finite 4,
                   rotate_y = Finite 5, rotate_z = Finite 6, near_plane = Finite 1,
                   far_plane = Finite 5, fov = Finite 90\<rparr>) \<and>
   warp3d_op (Finite 1) (Finite 2) (Finite 3) (Finite 4) (Finite 5) (Finite 6)
       (Finite 1) (Finite 5) (Finite 90) ''mirror'' =
      Inl (ValueError [S ''invalid 3d border mode '', S ''mirror''])"
proof -
  have sp: "\<forall>c\<in>set [CHR 0xA0]. is_space c" "\<forall>c\<in>set '' ''. is_space c"
    by (simp_all add: is_space_def whitespace_def)
  have lo: "str_lower ''Reflect'' = ''reflect''"
    by (simp add: str_eval)
  have mem: "(''reflect'', BORDER_REFLECT) \<in> set BORDER_MODES_3D"
    by (simp add: BORDER_MODES_3D_items)
  have miss: "str_strip (str_lower ''mirror'') \<notin> fst ` set BORDER_MODES_3D"
    by (simp add: str_eval BORDER_MODES_3D_items)
  show ?thesis
    using warp3d_op_checked [of "Finite 5" "Finite 5" "Finite 1" "Finite 2" "Finite 3"
        "Finite 4" "Finite 5" "Finite 6" "Finite 1" "''zero''"]
      warp3d_op_checked [of NaN "Finite 5" "Finite 1" "Finite 2" "Finite 3"
        "Finite 4" "Finite 5" "Finite 6" "Finite 1" "''zero''"]
      warp3d_op_checked [of "Finite 1" "Finite 5" "Finite 1" "Finite 2" "Finite 3"
        "Finite 4" "Finite 5" "Finite 6" "Finite 0" "''zero''"]
      warp3d_op_checked [of "Finite 1" "Finite 5" "Finite 1" "Finite 2" "Finite 3"
        "Finite 4" "Finite 5" "Finite 6" "Finite 90" "''mirror''" "''reflect''" BORDER_REFLECT
        "''Reflect''" "[CHR 0xA0]" "'' ''"]
      sp lo mem miss
    by simp
qed

text \<open>
  C6 as stated fails in two places. With \<open>near = 1 < far = 2\<close> and \<open>fov = 1 > 0\<close> the
  call does not return an operation when the border name is \<open>wrap\<close>, which only the 2D
  table has. With \<open>near\<close> NaN neither \<open>near >= far\<close> nor \<open>fov <= 0\<close> holds, and the call
  raises the camera-volume error all the same.
\<close>

theorem warp3d_op_valid_camera_raises:
  "\<not> (float_ge (Finite 1) (Finite 2) \<or> float_ge (Finite 0) (Finite 1)) \<and>
   warp3d_op (Finite 0) (Finite 0) (Finite 0) (Finite 0) (Finite 0) (Finite 0)
       (Finite 1) (Finite 2) (Finite 1) ''wrap'' =
     Inl (ValueError [S ''invalid 3d border mode '', S ''wrap'']) \<and>
   \<not> (float_ge NaN (Finite 2) \<or> float_ge (Finite 0) (Finite 1)) \<and>
   warp3d_op (Finite 0) (Finite 0) (Finite 0) (Finite 0) (Finite 0) (Finite 0)
       NaN (Finite 2) (Finite 1) ''zero'' =
     Inl (ValueError [S ''Invalid camera volume: must satisfy near < far, '',
                      S ''got near='', F NaN, S '', far='', F (Finite 2)])"
  by (simp add: warp3d_op_def border_mode_from_str_3d_def BORDER_MODES_3D_items str_eval
      float_ge_def is_nan_def)

section \<open>Transform pipeline: what the response loop collects\<close>

lemma handle_artifact_other:
  "\<not> image_or_mask a \<Longrightarrow> handle_artifact imdecode st a = Inr st"
  by (cases st) (simp add: handle_artifact_def image_or_mask_def)

lemma artifacts_loop_filter:
  "artifacts_loop imdecode st (filter image_or_mask as) = artifacts_loop imdecode st as"
  by (induction as arbitrary: st) (simp_all add: handle_artifact_other split: sum.splits)

lemma responses_loop_filter:
  "responses_loop imdecode st (map (filter image_or_mask) rs) = responses_loop imdecode st rs"
  by (induction rs arbitrary: st) (simp_all add: artifacts_loop_filter split: sum.splits)

text \<open>
  C9. Artifacts that are neither image-typed nor mask-typed have no effect on
  \<open>image_xform\<close>: the call gives the same outcome (the same images and mask, or the same
  error) as on the response stream with every such artifact removed. They add nothing
  to the image list or the mask slot, do not count as masks and raise nothing.
\<close>

theorem image_xform_skips_other_artifacts:
  "image_xform (\<lambda>rq. map (filter image_or_mask) (generate rq)) image_to_png_bytes imdecode images ops engine
     = image_xform generate image_to_png_bytes imdecode images ops engine"
  by (simp add: image_xform_def Let_def responses_loop_filter)


theorem image_xform_skips_other_artifacts_witness:
  "image_xform
     (\<lambda>rq. [[\<lparr>artifact_type = ARTIFACT_IMAGE, binary = ''p1''\<rparr>,
             \<lparr>artifact_type = ARTIFACT_OTHER, binary = ''t1''\<rparr>],
            [\<lparr>artifact_type = ARTIFACT_OTHER, binary = ''t2''\<rparr>,
             \<lparr>artifact_type = ARTIFACT_MASK, binary = ''p2''\<rparr>]])
     (\<lambda>i. i) Some [''in''] [] ''transform-server-v1''
   = Inr ([Some ''p1''], Some ''p2'')"
  using image_xform_skips_other_artifacts
    [of "\<lambda>rq. [[\<lparr>artifact_type = ARTIFACT_IMAGE, binary = ''p1''\<rparr>,
                  \<lparr>artifact_type = ARTIFACT_OTHER, binary = ''t1''\<rparr>],
                 [\<lparr>artifact_type = ARTIFACT_OTHER, binary = ''t2''\<rparr>,
                  \<lparr>artifact_type = ARTIFACT_MASK, binary = ''p2''\<rparr>]]"
        "\<lambda>i. i" Some "[''in'']" "[]" "''transform-server-v1''", symmetric]
  by (simp add: image_or_mask_def image_xform_def handle_artifact_def)

lemma artifacts_loop_append:
  "artifacts_loop imdecode st (as @ bs) =
     (case artifacts_loop imdecode st as of Inl e \<Rightarrow> Inl e | Inr st' \<Rightarrow> artifacts_loop imdecode st' bs)"
  by (induction as arbitrary: st) (simp_all split: sum.splits)

lemma responses_loop_concat:
  "responses_loop imdecode st rs = artifacts_loop imdecode st (concat rs)"
  by (induction rs arbitrary: st) (simp_all add: artifacts_loop_append split: sum.splits)

lemma is_image_fun: "is_image = (\<lambda>a. artifact_type a = ARTIFACT_IMAGE)"
  by (rule ext) (simp add: is_image_def)

lemma is_mask_fun: "is_mask = (\<lambda>a. artifact_type a = ARTIFACT_MASK)"
  by (rule ext) (simp add: is_mask_def)

lemma artifacts_loop_mask_set:
  assumes "m \<noteq> None"
  shows "artifacts_loop imdecode (imgs, m) as =
     (if filter is_mask as \<noteq> [] then Inl (Exception multiple_masks)
      else Inr (imgs @ map (\<lambda>a. imdecode (binary a)) (filter is_image as), m))"
  using assms unfolding is_image_fun is_mask_fun
  by (induction as arbitrary: imgs) (auto simp: handle_artifact_def Let_def)

lemma artifacts_loop_no_mask:
  assumes "\<forall>a\<in>set as. is_mask a \<longrightarrow> imdecode (binary a) \<noteq> None"
  shows "artifacts_loop imdecode (imgs, None) as =
     (case filter is_mask as of
        [] \<Rightarrow> Inr (imgs @ map (\<lambda>a. imdecode (binary a)) (filter is_image as), None)
      | [m] \<Rightarrow> Inr (imgs @ map (\<lambda>a. imdecode (binary a)) (filter is_image as), imdecode (binary m))
      | _ \<Rightarrow> Inl (Exception multiple_masks))"
  using assms
proof (induction as arbitrary: imgs)
  case Nil
  then show ?case by simp
next
  case (Cons a as)
  show ?case
  proof (cases "artifact_type a")
    case ARTIFACT_IMAGE
    then show ?thesis using Cons unfolding is_image_fun is_mask_fun
      by (simp add: handle_artifact_def Let_def split: list.splits)
  next
    case ARTIFACT_MASK
    then have "imdecode (binary a) \<noteq> None" using Cons.prems by (simp add: is_mask_def)
    then show ?thesis using ARTIFACT_MASK artifacts_loop_mask_set [of "imdecode (binary a)" imdecode imgs as]
      unfolding is_image_fun is_mask_fun
      by (auto simp: handle_artifact_def Let_def split: list.splits)
  next
    case ARTIFACT_OTHER
    then show ?thesis using Cons unfolding is_image_fun is_mask_fun
      by (simp add: handle_artifact_def Let_def split: list.splits)
  qed
qed


text \<open>
  When every mask-typed artifact of the stream decodes to an image, the loop returns the
  decoded image-typed payloads in arrival order together with the only mask, and raises
  as soon as the stream holds two mask-typed artifacts, in one response or in two.
\<close>

lemma image_xform_when_masks_decode:
  assumes "images \<noteq> []"
    and "\<forall>a\<in>set (concat (generate \<lparr>engine_id = engine,
            request_prompt = map (\<lambda>img. image_to_prompt image_to_png_bytes img False) images,
            transform_sequence = ops\<rparr>)). is_mask a \<longrightarrow> imdecode (binary a) \<noteq> None"
  shows "image_xform generate image_to_png_bytes imdecode images ops engine =
     (let as = concat (generate \<lparr>engine_id = engine,
            request_prompt = map (\<lambda>img. image_to_prompt image_to_png_bytes img False) images,
            transform_sequence = ops\<rparr>)
      in case filter is_mask as of
           [] \<Rightarrow> Inr (map (\<lambda>a. imdecode (binary a)) (filter is_image as), None)
         | [m] \<Rightarrow> Inr (map (\<lambda>a. imdecode (binary a)) (filter is_image as), imdecode (binary m))
         | _ \<Rightarrow> Inl (Exception multiple_masks))"
  using assms(1) artifacts_loop_no_mask [OF assms(2), of "[]"]
  by (simp add: image_xform_def Let_def responses_loop_concat split: list.splits)

text \<open>
  C2. The slot \<open>mask\<close> is \<open>None\<close> both before any mask arrived and after a mask whose
  payload did not decode (the decoder's result is \<open>None\<close> then). In a stream of two
  responses with one mask-typed artifact each, the first with a payload that does not
  decode, the second mask does not raise: the call returns no image and the second mask.
\<close>

theorem image_xform_second_mask_after_undecoded_mask:
  "image_xform
     (\<lambda>rq. [[\<lparr>artifact_type = ARTIFACT_MASK, binary = ''not an image''\<rparr>],
            [\<lparr>artifact_type = ARTIFACT_MASK, binary = ''png''\<rparr>]])
     (\<lambda>i. i) (\<lambda>b. if b = ''not an image'' then None else Some b)
     [''in''] [] ''transform-server-v1''
   = Inr ([], Some ''png'')"
  by (simp add: image_xform_def handle_artifact_def)

section \<open>Keyframe strings: matches and the resulting dict\<close>

lemma not_digit_colon: "\<not> is_digit CHR '':''"
  by (simp add: is_digit_def digits_def)

lemma not_space_paren: "\<not> is_space CHR ''(''"
  by (simp add: is_space_def whitespace_def)

lemma match_at_complete:
  assumes "ds \<noteq> []" and "\<forall>c\<in>set ds. is_digit c" and "\<forall>c\<in>set ws. is_space c"
  shows "match_at (ds @ CHR '':'' # ws @ CHR ''('' # p @ CHR '')'' # post) \<noteq> None"
proof -
  let ?s = "ds @ CHR '':'' # ws @ CHR ''('' # p @ CHR '')'' # post"
  have t: "takeWhile is_digit ?s = ds"
    using assms(2) by (simp add: takeWhile_append2 not_digit_colon)
  have d: "dropWhile is_digit ?s = CHR '':'' # ws @ CHR ''('' # p @ CHR '')'' # post"
    using assms(2) by (simp add: dropWhile_append2 not_digit_colon)
  have w: "dropWhile is_space (ws @ CHR ''('' # p @ CHR '')'' # post) = CHR ''('' # p @ CHR '')'' # post"
    using assms(3) by (simp add: dropWhile_append2 not_space_paren)
  have "dropWhile (\<lambda>x. x \<noteq> CHR '')'') (p @ CHR '')'' # post) \<noteq> []"
    by (simp add: dropWhile_eq_Nil_conv)
  then show ?thesis
    using assms(1) by (simp add: match_at_def t d w split: list.splits)
qed

lemma match_at_sound:
  assumes "match_at s = Some (ds, p, rest)"
  shows "\<exists>ws. s = ds @ CHR '':'' # ws @ CHR ''('' # p @ CHR '')'' # rest
            \<and> ds \<noteq> [] \<and> (\<forall>c\<in>set ds. is_digit c) \<and> (\<forall>c\<in>set ws. is_space c)
            \<and> CHR '')'' \<notin> set p"
proof -
  from assms obtain s2 s3 where
    f: "ds = takeWhile is_digit s" "ds \<noteq> []" and
    a: "dropWhile is_digit s = CHR '':'' # s2" and
    b: "dropWhile is_space s2 = CHR ''('' # s3" and
    c: "dropWhile (\<lambda>x. x \<noteq> CHR '')'') s3 = hd (dropWhile (\<lambda>x. x \<noteq> CHR '')'') s3) # rest" and
    g: "p = takeWhile (\<lambda>x. x \<noteq> CHR '')'') s3"
    by (auto simp: match_at_def Let_def split: list.splits if_splits)
  have "dropWhile (\<lambda>x. x \<noteq> CHR '')'') s3 \<noteq> []"
    using c by (metis list.discI)
  then have "\<not> hd (dropWhile (\<lambda>x. x \<noteq> CHR '')'') s3) \<noteq> CHR '')''"
    by (rule hd_dropWhile)
  then have "hd (dropWhile (\<lambda>x. x \<noteq> CHR '')'') s3) = CHR '')''"
    by simp
  with c have c': "dropWhile (\<lambda>x. x \<noteq> CHR '')'') s3 = CHR '')'' # rest" by simp
  have "s = takeWhile is_digit s @ dropWhile is_digit s" by simp
  also have "\<dots> = ds @ CHR '':'' # s2" using f a by simp
  also have "s2 = takeWhile is_space s2 @ dropWhile is_space s2" by simp
  also have "\<dots> = takeWhile is_space s2 @ CHR ''('' # s3" using b by simp
  also have "s3 = takeWhile (\<lambda>x. x \<noteq> CHR '')'') s3 @ dropWhile (\<lambda>x. x \<noteq> CHR '')'') s3" by simp
  also have "\<dots> = p @ CHR '')'' # rest" using g c' by simp
  finally have "s = ds @ CHR '':'' # takeWhile is_space s2 @ CHR ''('' # p @ CHR '')'' # rest" .
  moreover have "\<forall>c\<in>set ds. is_digit c" using f by (auto dest: set_takeWhileD)
  moreover have "\<forall>c\<in>set (takeWhile is_space s2). is_space c" by (auto dest: set_takeWhileD)
  moreover have "CHR '')'' \<notin> set p" using g by (auto dest: set_takeWhileD)
  ultimately show ?thesis using f(2) by blast
qed


lemma map_of_dict_set: "map_of (dict_set d k v) = (map_of d)(k \<mapsto> v)"
  by (induction d) (auto simp: fun_eq_iff)




lemma dict_set_not_Nil: "dict_set d k v \<noteq> []"
  by (cases d) (auto split: if_splits)

lemma match_at_exact:
  assumes "ds \<noteq> []" and "\<forall>c\<in>set ds. is_digit c" and "\<forall>c\<in>set ws. is_space c"
    and "CHR '')'' \<notin> set p"
  shows "match_at (ds @ CHR '':'' # ws @ CHR ''('' # p @ CHR '')'' # rest) = Some (ds, p, rest)"
proof -
  let ?s = "ds @ CHR '':'' # ws @ CHR ''('' # p @ CHR '')'' # rest"
  have t: "takeWhile is_digit ?s = ds"
    using assms(2) by (simp add: takeWhile_append2 not_digit_colon)
  have d: "dropWhile is_digit ?s = CHR '':'' # ws @ CHR ''('' # p @ CHR '')'' # rest"
    using assms(2) by (simp add: dropWhile_append2 not_digit_colon)
  have w: "dropWhile is_space (ws @ CHR ''('' # p @ CHR '')'' # rest) = CHR ''('' # p @ CHR '')'' # rest"
    using assms(3) by (simp add: dropWhile_append2 not_space_paren)
  have np: "\<forall>x\<in>set p. x \<noteq> CHR '')''" using assms(4) by auto
  have tp: "takeWhile (\<lambda>x. x \<noteq> CHR '')'') (p @ CHR '')'' # rest) = p"
    using np by (simp add: takeWhile_append2)
  have dp: "dropWhile (\<lambda>x. x \<noteq> CHR '')'') (p @ CHR '')'' # rest) = CHR '')'' # rest"
    using np by (simp add: dropWhile_append2)
  show ?thesis
    using assms(1) by (simp add: match_at_def t d w tp dp)
qed

lemma match_at_None_iff: "match_at s = None \<longleftrightarrow> \<not> starts_with_segment s"
proof
  assume n: "match_at s = None"
  show "\<not> starts_with_segment s"
  proof
    assume "starts_with_segment s"
    then obtain ds ws p post where
      "s = ds @ CHR '':'' # ws @ CHR ''('' # p @ CHR '')'' # post"
      "ds \<noteq> []" "\<forall>c\<in>set ds. is_digit c" "\<forall>c\<in>set ws. is_space c"
      unfolding starts_with_segment_def by blast
    then have "match_at s \<noteq> None" using match_at_complete by blast
    with n show False by simp
  qed
next
  assume n: "\<not> starts_with_segment s"
  show "match_at s = None"
  proof (cases "match_at s")
    case None
    then show ?thesis .
  next
    case (Some m)
    obtain ds p rest where "m = (ds, p, rest)" by (cases m)
    with Some match_at_sound [of s ds p rest] have "starts_with_segment s"
      unfolding starts_with_segment_def by blast
    with n show ?thesis by simp
  qed
qed

lemma finditer_segmentation: "segmentation s (finditer s)"
proof (induction s rule: finditer.induct)
  case 1
  show ?case by (simp add: seg_end)
next
  case (2 c cs)
  show ?case
  proof (cases "match_at (c # cs)")
    case None
    then have "\<not> starts_with_segment (c # cs)" by (simp add: match_at_None_iff)
    moreover have "segmentation cs (finditer cs)" using 2(1) None by simp
    ultimately have "segmentation (c # cs) (finditer cs)" by (rule seg_skip)
    with None show ?thesis by simp
  next
    case (Some m)
    obtain ds p rest where m: "m = (ds, p, rest)" by (cases m)
    from match_at_sound [of "c # cs" ds p rest] Some m obtain ws where
      s: "c # cs = ds @ CHR '':'' # ws @ CHR ''('' # p @ CHR '')'' # rest" and
      h: "ds \<noteq> []" "\<forall>c\<in>set ds. is_digit c" "\<forall>c\<in>set ws. is_space c" "CHR '')'' \<notin> set p"
      by auto
    have "segmentation rest (finditer rest)" using 2(2) Some m by simp
    with h have "segmentation (ds @ CHR '':'' # ws @ CHR ''('' # p @ CHR '')'' # rest)
        ((ds, p) # finditer rest)"
      by (rule seg_match)
    then have "segmentation (c # cs) ((ds, p) # finditer rest)"
      by (simp only: s)
    moreover have "finditer (c # cs) = (ds, p) # finditer rest"
      using Some m by simp
    ultimately show ?thesis by (simp only:)
  qed
qed

lemma segmentation_finditer: "segmentation s ms \<Longrightarrow> finditer s = ms"
proof (induction rule: segmentation.induct)
  case seg_end
  show ?case by simp
next
  case (seg_skip c cs ms)
  then show ?case by (simp add: match_at_None_iff [symmetric])
next
  case (seg_match ds ws p rest ms)
  obtain c cs where "ds = c # cs" using seg_match(1) by (cases ds) auto
  then show ?case
    using match_at_exact [OF seg_match(1,2,3,4), of rest] seg_match.IH by simp
qed




lemma record_all_not_Nil: "d \<noteq> [] \<or> es \<noteq> [] \<Longrightarrow> record_all d es \<noteq> []"
  by (induction d es rule: record_all.induct) (simp_all add: dict_set_not_Nil)

lemma int_of_digits_ok: "length ds \<le> int_max_str_digits \<Longrightarrow> int_of_digits ds = Inr (decimal_value ds)"
  by (simp add: int_of_digits_def)




lemma frames_loop_grows:
  "frames_loop pp d ms = Inr r \<Longrightarrow> d \<noteq> [] \<or> ms \<noteq> [] \<Longrightarrow> r \<noteq> []"
proof (induction pp d ms rule: frames_loop.induct)
  case (1 pp d)
  then show ?case by simp
next
  case (2 pp d ds p ms)
  then show ?case
    by (auto simp: dict_set_not_Nil split: option.splits sum.splits)
qed

lemma frames_loop_first_int_error:
  "\<forall>m\<in>set ms1. length (fst m) \<le> int_max_str_digits \<Longrightarrow>
   (\<And>f. pp = Some f \<Longrightarrow> \<forall>m\<in>set ms1. \<exists>v. f (snd m) = Inr v) \<Longrightarrow>
   length ds > int_max_str_digits \<Longrightarrow>
     frames_loop pp d (ms1 @ (ds, p) # ms2) = Inl (Raised (ValueError
          [S ''Exceeds the limit (4300 digits) for integer string conversion: value has '',
           S (digits_of_nat (length ds)),
           S '' digits; use sys.set_int_max_str_digits() to increase the limit'']))"
proof (induction ms1 arbitrary: d)
  case Nil
  then show ?case by (simp add: int_of_digits_def)
next
  case (Cons m ms1)
  obtain ds' p' where m: "m = (ds', p')" by (cases m)
  show ?case
  proof (cases pp)
    case None
    with Cons m show ?thesis by (simp add: int_of_digits_ok)
  next
    case (Some f)
    with Cons.prems(2) m obtain v where "f p' = Inr v" by fastforce
    with Cons m Some show ?thesis by (simp add: int_of_digits_ok)
  qed
qed

lemma frames_loop_append:
  "frames_loop pp d (ms1 @ ms2) =
     (case frames_loop pp d ms1 of Inl e \<Rightarrow> Inl e | Inr d' \<Rightarrow> frames_loop pp d' ms2)"
  by (induction pp d ms1 rule: frames_loop.induct) (simp_all split: sum.splits option.splits)

lemma frames_loop_total:
  assumes "\<forall>m\<in>set ms. length (fst m) \<le> int_max_str_digits"
    and "\<And>f. pp = Some f \<Longrightarrow> \<forall>m\<in>set ms. \<exists>w. f (snd m) = Inr w"
  shows "\<exists>r. frames_loop pp d ms = Inr r
           \<and> (\<forall>k. k \<notin> (\<lambda>m. decimal_value (fst m)) ` set ms \<longrightarrow> map_of r k = map_of d k)"
  using assms
proof (induction ms arbitrary: d)
  case Nil
  show ?case by simp
next
  case (Cons m ms)
  obtain ds p where m: "m = (ds, p)" by (cases m)
  have len: "length ds \<le> int_max_str_digits" using Cons.prems(1) m by simp
  have ih: "\<exists>r. frames_loop pp d' ms = Inr r
           \<and> (\<forall>k. k \<notin> (\<lambda>m. decimal_value (fst m)) ` set ms \<longrightarrow> map_of r k = map_of d' k)" for d'
    using Cons.IH [of d'] Cons.prems by simp
  show ?case
  proof (cases pp)
    case None
    from ih [of "dict_set d (decimal_value ds) (Raw p)"] obtain r where
      "frames_loop pp (dict_set d (decimal_value ds) (Raw p)) ms = Inr r"
      "\<forall>k. k \<notin> (\<lambda>m. decimal_value (fst m)) ` set ms
         \<longrightarrow> map_of r k = map_of (dict_set d (decimal_value ds) (Raw p)) k"
      by blast
    then show ?thesis using None m len
      by (auto simp: int_of_digits_ok map_of_dict_set)
  next
    case (Some f)
    with Cons.prems(2) m obtain w where w: "f p = Inr w" by fastforce
    from ih [of "dict_set d (decimal_value ds) (Parsed w)"] obtain r where
      "frames_loop pp (dict_set d (decimal_value ds) (Parsed w)) ms = Inr r"
      "\<forall>k. k \<notin> (\<lambda>m. decimal_value (fst m)) ` set ms
         \<longrightarrow> map_of r k = map_of (dict_set d (decimal_value ds) (Parsed w)) k"
      by blast
    then show ?thesis using Some m len w
      by (auto simp: int_of_digits_ok map_of_dict_set)
  qed
qed

lemma key_frame_parse_of_frames:
  "frames_loop pp [] (finditer s) = Inr r \<Longrightarrow> finditer s \<noteq> [] \<Longrightarrow> key_frame_parse s pp = Inr r"
  using frames_loop_grows [of pp "[]" "finditer s" r] by (simp add: key_frame_parse_def)

text \<open>Matches of concrete strings, by evaluation.\<close>

lemmas regex_eval =
  match_at_def Let_def is_digit_def digits_def is_space_def whitespace_def



lemma finditer_dup:
  "finditer (''05:(x) 5:'' @ [CHR 0xA0] @ ''(y)  6: (z)'')
     = [(''05'', ''x''), (''5'', ''y''), (''6'', ''z'')]"
  by (simp add: regex_eval)


lemma finditer_same: "finditer ''5:(x) 5:(y)'' = [(''5'', ''x''), (''5'', ''y'')]"
  by (simp add: regex_eval)

lemma decimal_value_eval:
  "decimal_value ''0'' = 0" "decimal_value ''3'' = 3" "decimal_value ''7'' = 7"
  "decimal_value ''05'' = 5" "decimal_value ''5'' = 5" "decimal_value ''6'' = 6"
  "decimal_value ''10'' = 10"
  by (simp_all add: decimal_value_def digit_value_def digits_def)


lemma long_duplicate_frame_raises:
  "segmentation (replicate 4301 CHR ''1'' @ '':(x)'' @ replicate 4301 CHR ''1'' @ '':(y)'')
     [(replicate 4301 CHR ''1'', ''x''), (replicate 4301 CHR ''1'', ''y'')] \<and>
   key_frame_parse (replicate 4301 CHR ''1'' @ '':(x)'' @ replicate 4301 CHR ''1'' @ '':(y)'')
       (None :: (string \<Rightarrow> string + real) option)
     = Inl (Raised (ValueError
          [S ''Exceeds the limit (4300 digits) for integer string conversion: value has '',
           S ''4301'',
           S '' digits; use sys.set_int_max_str_digits() to increase the limit'']))"
proof -
  define ds where "ds = replicate 4301 CHR ''1''"
  have l: "length ds = 4301" by (simp add: ds_def)
  have ne: "ds \<noteq> []" using l by auto
  have dg: "\<forall>c\<in>set ds. is_digit c" by (simp add: ds_def is_digit_def digits_def)
  have y: "segmentation (ds @ CHR '':'' # [] @ CHR ''('' # ''y'' @ CHR '')'' # []) ((ds, ''y'') # [])"
    using ne dg by (intro seg_match seg_end) simp_all
  have "segmentation (ds @ CHR '':'' # [] @ CHR ''('' # ''x'' @ CHR '')'' #
      (ds @ CHR '':'' # [] @ CHR ''('' # ''y'' @ CHR '')'' # [])) ((ds, ''x'') # (ds, ''y'') # [])"
    by (rule seg_match [OF ne dg _ _ y]) simp_all
  then have sg: "segmentation (ds @ '':(x)'' @ ds @ '':(y)'') [(ds, ''x''), (ds, ''y'')]"
    by simp
  then have fi: "finditer (ds @ '':(x)'' @ ds @ '':(y)'') = [(ds, ''x''), (ds, ''y'')]"
    by (rule segmentation_finditer)
  have n: "digits_of_nat 4301 = ''4301''"
    by (simp add: digits_of_nat.simps digits_def)
  have "key_frame_parse (ds @ '':(x)'' @ ds @ '':(y)'') (None :: (string \<Rightarrow> string + real) option)
     = Inl (Raised (ValueError
          [S ''Exceeds the limit (4300 digits) for integer string conversion: value has '',
           S ''4301'',
           S '' digits; use sys.set_int_max_str_digits() to increase the limit'']))"
    unfolding key_frame_parse_def fi
    by (simp add: int_of_digits_def int_max_str_digits_def l n)
  with sg show ?thesis by (simp only: ds_def)
qed




text \<open>
  C10, as the code has it. Let a segment found in the string share its frame index with
  no segment found after it, let no frame index found have more than 4300 digits and let
  the parser, if one is given, raise on none of the parameters found. Then the call
  returns a dict, and the value under that frame index is the parameter of that segment,
  whatever segments with the same index came before it.
\<close>

theorem key_frame_parse_last_segment_wins:
  assumes "segmentation s (ms1 @ (ds, p) # ms2)"
    and "decimal_value ds \<notin> (\<lambda>m. decimal_value (fst m)) ` set ms2"
    and "\<forall>m\<in>set (ms1 @ (ds, p) # ms2). length (fst m) \<le> int_max_str_digits"
  shows "(pp = None \<longrightarrow>
            (\<exists>frames. key_frame_parse s pp = Inr frames
               \<and> map_of frames (decimal_value ds) = Some (Raw p))) \<and>
         (\<forall>f v. pp = Some f \<and> f p = Inr v \<and> (\<forall>m\<in>set (ms1 @ ms2). \<exists>w. f (snd m) = Inr w) \<longrightarrow>
            (\<exists>frames. key_frame_parse s pp = Inr frames
               \<and> map_of frames (decimal_value ds) = Some (Parsed v)))"
proof -
  have fi: "finditer s = ms1 @ (ds, p) # ms2" using assms(1) by (rule segmentation_finditer)
  have len: "\<forall>m\<in>set ms1. length (fst m) \<le> int_max_str_digits"
    "length ds \<le> int_max_str_digits" "\<forall>m\<in>set ms2. length (fst m) \<le> int_max_str_digits"
    using assms(3) by auto
  have main: "\<exists>frames. key_frame_parse s pp = Inr frames
      \<and> map_of frames (decimal_value ds) = Some x"
    if ok: "\<And>f. pp = Some f \<Longrightarrow> \<forall>m\<in>set (ms1 @ ms2). \<exists>w. f (snd m) = Inr w"
      and step: "\<And>d. frames_loop pp d ((ds, p) # ms2)
                    = frames_loop pp (dict_set d (decimal_value ds) x) ms2"
    for x
  proof -
    obtain d1 where d1: "frames_loop pp [] ms1 = Inr d1"
      using frames_loop_total [of ms1 pp "[]"] len(1) ok by auto
    obtain r where r: "frames_loop pp (dict_set d1 (decimal_value ds) x) ms2 = Inr r"
      and keep: "\<forall>k. k \<notin> (\<lambda>m. decimal_value (fst m)) ` set ms2
          \<longrightarrow> map_of r k = map_of (dict_set d1 (decimal_value ds) x) k"
      using frames_loop_total [of ms2 pp "dict_set d1 (decimal_value ds) x"] len(3) ok by auto
    have "frames_loop pp [] (finditer s) = Inr r"
      unfolding fi frames_loop_append d1 using step [of d1] r by simp
    then have "key_frame_parse s pp = Inr r"
      using fi by (simp add: key_frame_parse_of_frames)
    moreover have "map_of r (decimal_value ds) = Some x"
      using keep assms(2) by (simp add: map_of_dict_set)
    ultimately show ?thesis by blast
  qed
  have a: "pp = None \<longrightarrow>
            (\<exists>frames. key_frame_parse s pp = Inr frames
               \<and> map_of frames (decimal_value ds) = Some (Raw p))"
  proof
    assume n: "pp = None"
    show "\<exists>frames. key_frame_parse s pp = Inr frames
               \<and> map_of frames (decimal_value ds) = Some (Raw p)"
      by (rule main) (simp_all add: n int_of_digits_ok len(2))
  qed
  have b: "\<forall>f v. pp = Some f \<and> f p = Inr v \<and> (\<forall>m\<in>set (ms1 @ ms2). \<exists>w. f (snd m) = Inr w) \<longrightarrow>
            (\<exists>frames. key_frame_parse s pp = Inr frames
               \<and> map_of frames (decimal_value ds) = Some (Parsed v))"
  proof (intro allI impI)
    fix f v
    assume h: "pp = Some f \<and> f p = Inr v \<and> (\<forall>m\<in>set (ms1 @ ms2). \<exists>w. f (snd m) = Inr w)"
    show "\<exists>frames. key_frame_parse s pp = Inr frames
               \<and> map_of frames (decimal_value ds) = Some (Parsed v)"
      by (rule main) (use h in \<open>simp_all add: int_of_digits_ok len(2)\<close>)
  qed
  from a b show ?thesis by blast
qed

theorem key_frame_parse_last_segment_wins_witness:
  "(\<exists>frames. key_frame_parse (''05:(x) 5:'' @ [CHR 0xA0] @ ''(y)  6: (z)'')
        (None :: (string \<Rightarrow> string + string) option) = Inr frames
      \<and> map_of frames 5 = Some (Raw ''y'')) \<and>
   (\<exists>frames. key_frame_parse (''05:(x) 5:'' @ [CHR 0xA0] @ ''(y)  6: (z)'')
        (Some (\<lambda>t. Inr (t @ t) :: string + string)) = Inr frames
      \<and> map_of frames 5 = Some (Parsed ''yy''))"
proof -
  let ?s = "''05:(x) 5:'' @ [CHR 0xA0] @ ''(y)  6: (z)''"
  have a: "segmentation ?s ([(''05'', ''x'')] @ (''5'', ''y'') # [(''6'', ''z'')])"
    using finditer_segmentation [of ?s] unfolding finditer_dup by simp
  have b: "decimal_value ''5'' \<notin> (\<lambda>m. decimal_value (fst m)) ` set [(''6'', ''z'')]"
    by (simp add: decimal_value_eval)
  have c: "\<forall>m\<in>set ([(''05'', ''x'')] @ (''5'', ''y'') # [(''6'', ''z'')]).
      length (fst m) \<le> int_max_str_digits"
    by (simp add: int_max_str_digits_def)
  show ?thesis
    using key_frame_parse_last_segment_wins [OF a b c, of "None :: (string \<Rightarrow> string + string) option"]
      key_frame_parse_last_segment_wins [OF a b c, of "Some (\<lambda>t. Inr (t @ t) :: string + string)"]
    by (simp add: decimal_value_eval)
qed

text \<open>
  C10 as stated fails: in \<open>5:(x) 5:(y)\<close> the frame index 5 occurs in two segments, and
  with a parser that raises on the first parameter, as \<open>float\<close> does on \<open>x\<close>, the call
  records nothing and the parser's exception comes out of it. So does the \<open>ValueError\<close>
  of \<open>int\<close>, with no parser at all, when the frame index of the two segments has 4301
  digits.
\<close>

theorem key_frame_parse_duplicate_frame_raises:
  "segmentation ''5:(x) 5:(y)'' [(''5'', ''x''), (''5'', ''y'')] \<and>
   key_frame_parse ''5:(x) 5:(y)''
       (Some (\<lambda>t. Inl (''could not convert string to float: '' @ t) :: string + real))
     = Inl (Parser_raised ''could not convert string to float: x'') \<and>
   segmentation (replicate 4301 CHR ''1'' @ '':(x)'' @ replicate 4301 CHR ''1'' @ '':(y)'')
     [(replicate 4301 CHR ''1'', ''x''), (replicate 4301 CHR ''1'', ''y'')] \<and>
   key_frame_parse (replicate 4301 CHR ''1'' @ '':(x)'' @ replicate 4301 CHR ''1'' @ '':(y)'')
       (None :: (string \<Rightarrow> string + real) option)
     = Inl (Raised (ValueError
          [S ''Exceeds the limit (4300 digits) for integer string conversion: value has '',
           S ''4301'',
           S '' digits; use sys.set_int_max_str_digits() to increase the limit'']))"
proof -
  have "key_frame_parse ''5:(x) 5:(y)''
       (Some (\<lambda>t. Inl (''could not convert string to float: '' @ t) :: string + real))
     = Inl (Parser_raised ''could not convert string to float: x'')"
    unfolding key_frame_parse_def finditer_same
    by (simp add: int_of_digits_def int_max_str_digits_def)
  moreover have "segmentation ''5:(x) 5:(y)'' [(''5'', ''x''), (''5'', ''y'')]"
    using finditer_segmentation [of "''5:(x) 5:(y)''"] unfolding finditer_same .
  ultimately show ?thesis using long_duplicate_frame_raises by (intro conjI) simp_all
qed

section \<open>Keyframe expansion: the method used\<close>

lemmas kf_eval = key_frame_inbetweens_def new_series_def effective_method_def
  series_getitem_def interpolate_def Let_def

lemma upt_11: "[0..<11] = [0, 1, 2, 3, 4, 5, 6, 7, 8, 9, 10]"
  by (simp add: upt_rec)

lemma str_lower_Linear: "str_lower ''Linear'' = ''linear''"
  by (simp add: str_eval)


lemma effective_method_other:
  "m \<noteq> ''Cubic'' \<Longrightarrow> m \<noteq> ''Quadratic'' \<Longrightarrow> effective_method m n = m"
  by (simp add: effective_method_def)



lemma inbetweens_1_5:
  "key_frame_inbetweens scipy [(0, 1), (10, 5)] 11 False ''Linear'' =
     Inr (FloatSeries [(0, Some 1), (1, Some (7/5)), (2, Some (9/5)), (3, Some (11/5)),
       (4, Some (13/5)), (5, Some 3), (6, Some (17/5)), (7, Some (19/5)), (8, Some (21/5)),
       (9, Some (23/5)), (10, Some 5)])"
  by (simp add: kf_eval upt_11 str_lower_Linear)



section \<open>Keyframe round trip\<close>

lemma finditer_round_trip: "finditer ''0:(1.0) 10:(5.0)'' = [(''0'', ''1.0''), (''10'', ''5.0'')]"
  by (simp add: regex_eval)

text \<open>
  C5. With a parser that reads \<open>1.0\<close> as 1 and \<open>5.0\<close> as 5, parsing
  \<open>0:(1.0) 10:(5.0)\<close> gives the dict with 1 under frame 0 and 5 under frame 10, and
  expanding that dict over 11 frames with \<open>Linear\<close> gives a series of 11 values, strictly
  increasing, with 1 at position 0 and 5 at position 10.
\<close>

theorem keyframe_round_trip:
  assumes "p ''1.0'' = Inr (1 :: real)" and "p ''5.0'' = Inr (5 :: real)"
  shows "key_frame_parse ''0:(1.0) 10:(5.0)'' (Some p)
           = Inr (map (\<lambda>(k, v). (k, Parsed v)) [(0, 1), (10, 5)]) \<and>
         (\<exists>vals. key_frame_inbetweens scipy [(0, 1), (10, 5)] 11 False ''Linear''
                    = Inr (FloatSeries (zip (map int [0..<11]) (map Some vals)))
            \<and> length vals = 11 \<and> vals ! 0 = 1 \<and> vals ! 10 = 5 \<and> sorted_wrt (<) vals)"
proof -
  have a: "key_frame_parse ''0:(1.0) 10:(5.0)'' (Some p)
           = Inr (map (\<lambda>(k, v). (k, Parsed v)) [(0, 1), (10, 5)])"
    unfolding key_frame_parse_def finditer_round_trip
    using assms by (simp add: int_of_digits_def int_max_str_digits_def decimal_value_eval)
  let ?vals = "[1, 7/5, 9/5, 11/5, 13/5, 3, 17/5, 19/5, 21/5, 23/5, 5 :: real]"
  have "key_frame_inbetweens scipy [(0, 1), (10, 5)] 11 False ''Linear''
                    = Inr (FloatSeries (zip (map int [0..<11]) (map Some ?vals)))"
    by (simp add: inbetweens_1_5 upt_11)
  moreover have "length ?vals = 11 \<and> ?vals ! 0 = 1 \<and> ?vals ! 10 = 5 \<and> sorted_wrt (<) ?vals"
    by simp
  ultimately show ?thesis using a by blast
qed

theorem keyframe_round_trip_witness:
  "key_frame_parse ''0:(1.0) 10:(5.0)''
       (Some (\<lambda>t. if t = ''1.0'' then Inr 1 else (Inr 5 :: string + real)))
           = Inr [(0, Parsed 1), (10, Parsed 5)] \<and>
   (\<exists>vals. key_frame_inbetweens (\<lambda>m s. Inl KeyError) [(0, 1), (10, 5)] 11 False ''Linear''
                    = Inr (FloatSeries (zip (map int [0..<11]) (map Some vals)))
            \<and> length vals = 11 \<and> vals ! 0 = 1 \<and> vals ! 10 = 5 \<and> sorted_wrt (<) vals)"
  using keyframe_round_trip [of "\<lambda>t. if t = ''1.0'' then Inr 1 else (Inr 5 :: string + real)"
      "\<lambda>m s. Inl KeyError"]
  by simp

section \<open>Keyframe expansion: the clamped series\<close>












































end
